theory Spec2Isabelle
  imports Complex_Main "HOL-Library.Sublist"
begin

section \<open>Token-limit lookup and catalog normalisation (packages/api/src/utils/tokens.ts)\<close>

subsection \<open>Strings\<close>

text \<open>
  A JavaScript string is modelled as a \<^typ>\<open>string\<close> whose characters are the code units
  U+0000 to U+00FF. On these, \<^verbatim>\<open>String.prototype.toLowerCase\<close> maps A-Z and the Latin-1
  capitals U+00C0 to U+00DE (without the multiplication sign U+00D7) to the code unit 32
  above, and leaves every other code unit alone.
\<close>

definition toLowerCase_char :: "char \<Rightarrow> char" where
  "toLowerCase_char c =
     (let n = (of_char c :: nat)
      in if (65 \<le> n \<and> n \<le> 90) \<or> (192 \<le> n \<and> n \<le> 222 \<and> n \<noteq> 215)
         then char_of (n + 32) else c)"

definition toLowerCase :: "string \<Rightarrow> string" where
  "toLowerCase s = map toLowerCase_char s"

text \<open>\<^verbatim>\<open>s.includes(searchString)\<close>: \<open>searchString\<close> occurs in \<open>s\<close> as a contiguous run.\<close>

definition str_includes :: "string \<Rightarrow> string \<Rightarrow> bool" where
  "str_includes s searchString = sublist searchString s"

subsection \<open>Numbers\<close>

text \<open>
  A JavaScript number is an IEEE 754 binary64 value: NaN, an infinity with its sign, or a
  finite value, held as its sign (\<open>True\<close> for negative, so that \<open>-0\<close> is kept apart from
  \<open>+0\<close>) and its exact magnitude as a real.
\<close>

datatype number = NaN | Infinity bool | Finite bool real

text \<open>\<^verbatim>\<open>ToBoolean\<close> on a number: \<open>+0\<close>, \<open>-0\<close> and NaN are falsy.\<close>

fun truthy_number :: "number \<Rightarrow> bool" where
  "truthy_number NaN = False"
| "truthy_number (Infinity _) = True"
| "truthy_number (Finite _ r) = (r \<noteq> 0)"

subsection \<open>Values and exceptions\<close>

datatype jsval =
    JUndefined
  | JNull
  | JBool bool
  | JNum number
  | JStr string
  | JArr "jsval list"
  | JObj "(string \<times> jsval) list"

datatype error = TypeError | InvalidInputData

subsection \<open>Token records\<close>

text \<open>
  Modelled from the spec: the type \<^verbatim>\<open>TokenConfig\<close> is imported from \<^verbatim>\<open>~/types\<close>; the spec
  gives it as a record with the optional numeric fields prompt, completion, context and
  output, an absent field meaning unknown.
\<close>

datatype field = Prompt | Completion | Context | Output

record TokenConfig =
  prompt :: "number option"
  completion :: "number option"
  context' :: "number option"
  output' :: "number option"

fun getField :: "TokenConfig \<Rightarrow> field \<Rightarrow> number option" where
  "getField c Prompt = prompt c"
| "getField c Completion = completion c"
| "getField c Context = context' c"
| "getField c Output = output' c"

text \<open>
  What a read of a token map can give: a bare number, a structured record, or one of the
  values that every object inherits from \<^verbatim>\<open>Object.prototype\<close> (a function, or
  \<^verbatim>\<open>Object.prototype\<close> itself), which is truthy, is not a number and has none of the fields
  of a record.
\<close>

datatype tokenValue = Number number | Config TokenConfig | Builtin

subsection \<open>Objects\<close>

text \<open>
  An object used as a dictionary has its own properties, listed in the order in which
  \<^verbatim>\<open>Object.keys\<close> enumerates them, and a prototype: \<^verbatim>\<open>Object.prototype\<close> (\<open>None\<close>), as for
  every object literal, or the token record that an assignment to \<^verbatim>\<open>__proto__\<close> has put in
  its place.
\<close>

record 'v object =
  ownProps :: "(string \<times> 'v) list"
  proto :: "TokenConfig option"

definition plain :: "(string \<times> 'v) list \<Rightarrow> 'v object" where
  "plain ps = \<lparr>ownProps = ps, proto = None\<rparr>"

definition Object_keys :: "'v object \<Rightarrow> string list" where
  "Object_keys obj = map fst (ownProps obj)"

definition getOwn :: "'v object \<Rightarrow> string \<Rightarrow> 'v option" where
  "getOwn obj k = map_of (ownProps obj) k"

text \<open>
  The order of \<^verbatim>\<open>Object.keys\<close>: first the keys that are array indices (the canonical
  decimal numerals of the integers below \<open>2^32 - 1\<close>) in ascending numeric order, then every
  other key in the order of its creation. Defining a property under an existing key
  replaces the value where it stands; a new key is placed by that order.
\<close>

definition isDigit :: "char \<Rightarrow> bool" where
  "isDigit c = (48 \<le> (of_char c :: nat) \<and> (of_char c :: nat) \<le> 57)"

definition digitsValue :: "string \<Rightarrow> nat" where
  "digitsValue ds = foldl (\<lambda>n c. 10 * n + ((of_char c :: nat) - 48)) 0 ds"

definition isArrayIndex :: "string \<Rightarrow> bool" where
  "isArrayIndex k =
     (k \<noteq> [] \<and> list_all isDigit k \<and> (k = ''0'' \<or> hd k \<noteq> CHR ''0'')
      \<and> digitsValue k < 2 ^ 32 - 1)"

fun replaceOwn :: "string \<Rightarrow> 'v \<Rightarrow> (string \<times> 'v) list \<Rightarrow> (string \<times> 'v) list" where
  "replaceOwn k v [] = []"
| "replaceOwn k v ((k', v') # rest) =
     (if k' = k then (k, v) # rest else (k', v') # replaceOwn k v rest)"

fun insertIndex :: "string \<Rightarrow> 'v \<Rightarrow> (string \<times> 'v) list \<Rightarrow> (string \<times> 'v) list" where
  "insertIndex k v [] = [(k, v)]"
| "insertIndex k v ((k', v') # rest) =
     (if isArrayIndex k' \<and> digitsValue k' < digitsValue k
      then (k', v') # insertIndex k v rest
      else (k, v) # (k', v') # rest)"

definition putOwn :: "(string \<times> 'v) list \<Rightarrow> string \<Rightarrow> 'v \<Rightarrow> (string \<times> 'v) list" where
  "putOwn ps k v =
     (if k \<in> set (map fst ps) then replaceOwn k v ps
      else if isArrayIndex k then insertIndex k v ps
      else ps @ [(k, v)])"

text \<open>
  The definition of an own property (as \<^verbatim>\<open>Object.fromEntries\<close>, \<^verbatim>\<open>JSON.parse\<close> and a
  computed key of an object literal do it), and the object built from the empty one by
  defining the entries one after the other.
\<close>

definition defineProperty :: "'v object \<Rightarrow> string \<Rightarrow> 'v \<Rightarrow> 'v object" where
  "defineProperty obj k v = obj\<lparr>ownProps := putOwn (ownProps obj) k v\<rparr>"

definition fromEntries :: "(string \<times> 'v) list \<Rightarrow> 'v object" where
  "fromEntries es = foldl (\<lambda>obj (k, v). defineProperty obj k v) (plain []) es"

subsection \<open>Reads and assignments through the prototype\<close>

text \<open>The property names of \<^verbatim>\<open>Object.prototype\<close>.\<close>

definition objectPrototypeNames :: "string list" where
  "objectPrototypeNames =
     [''constructor'', ''__defineGetter__'', ''__defineSetter__'', ''hasOwnProperty'',
      ''__lookupGetter__'', ''__lookupSetter__'', ''isPrototypeOf'', ''propertyIsEnumerable'',
      ''toString'', ''valueOf'', ''__proto__'', ''toLocaleString'']"

text \<open>The properties of a token record, read as an object: its populated fields.\<close>

definition recordProp :: "TokenConfig \<Rightarrow> string \<Rightarrow> number option" where
  "recordProp c k =
     (if k = ''prompt'' then prompt c
      else if k = ''completion'' then completion c
      else if k = ''context'' then context' c
      else if k = ''output'' then output' c
      else None)"

text \<open>
  The read \<^verbatim>\<open>obj[k]\<close> on a token map: an own property; otherwise, under \<^verbatim>\<open>__proto__\<close>, what
  the getter of \<^verbatim>\<open>Object.prototype\<close> returns, the prototype of the object; otherwise a field
  of the record that is the prototype; otherwise a property of \<^verbatim>\<open>Object.prototype\<close>;
  otherwise \<^verbatim>\<open>undefined\<close>.
\<close>

definition getProp :: "tokenValue object \<Rightarrow> string \<Rightarrow> tokenValue option" where
  "getProp obj k =
     (case getOwn obj k of
        Some v \<Rightarrow> Some v
      | None \<Rightarrow>
          if k = ''__proto__'' then
            (case proto obj of None \<Rightarrow> Some Builtin | Some c \<Rightarrow> Some (Config c))
          else
            (case proto obj of
               None \<Rightarrow> if k \<in> set objectPrototypeNames then Some Builtin else None
             | Some c \<Rightarrow>
                 (case recordProp c k of
                    Some n \<Rightarrow> Some (Number n)
                  | None \<Rightarrow> if k \<in> set objectPrototypeNames then Some Builtin else None)))"

text \<open>
  The assignment \<^verbatim>\<open>obj[k] = record\<close>: an own property under \<open>k\<close> is replaced; otherwise,
  under \<^verbatim>\<open>__proto__\<close>, the setter of \<^verbatim>\<open>Object.prototype\<close> makes the record the prototype of
  the object and no key is created; otherwise the property is defined.
\<close>

definition setProp :: "tokenValue object \<Rightarrow> string \<Rightarrow> TokenConfig \<Rightarrow> tokenValue object" where
  "setProp obj k c =
     (if k \<in> set (Object_keys obj) then defineProperty obj k (Config c)
      else if k = ''__proto__'' then obj\<lparr>proto := Some c\<rparr>
      else defineProperty obj k (Config c))"

type_synonym tokensMap = "tokenValue object"

text \<open>Sequencing of computations that may throw.\<close>

fun andThen :: "error + 'a \<Rightarrow> ('a \<Rightarrow> error + 'b) \<Rightarrow> error + 'b" where
  "andThen (Inl e) f = Inl e"
| "andThen (Inr v) f = f v"

text \<open>
  The primitives that throw a \<^verbatim>\<open>TypeError\<close>: a method call on a value that has no such
  method, and \<^verbatim>\<open>Object.keys\<close> or a property read on \<^verbatim>\<open>undefined\<close>.
\<close>

fun call_toLowerCase :: "jsval \<Rightarrow> error + string" where
  "call_toLowerCase (JStr s) = Inr (toLowerCase s)"
| "call_toLowerCase _ = Inl TypeError"

fun call_Object_keys :: "'v object option \<Rightarrow> error + string list" where
  "call_Object_keys None = Inl TypeError"
| "call_Object_keys (Some obj) = Inr (Object_keys obj)"

fun readProp :: "tokensMap option \<Rightarrow> string \<Rightarrow> error + tokenValue option" where
  "readProp None k = Inl TypeError"
| "readProp (Some obj) k = Inr (getProp obj k)"

subsection \<open>findMatchingPattern\<close>

text \<open>
  The loop \<^verbatim>\<open>for (let i = keys.length - 1; i >= 0; i--)\<close>; the counter of \<open>scanKeys\<close> is
  \<open>i + 1\<close>.
\<close>

fun scanKeys :: "string list \<Rightarrow> string \<Rightarrow> nat \<Rightarrow> string option" where
  "scanKeys keys lowerModelName 0 = None"
| "scanKeys keys lowerModelName (Suc i) =
     (let modelKey = keys ! i
      in if str_includes lowerModelName modelKey then Some modelKey
         else scanKeys keys lowerModelName i)"

definition findMatchingPattern :: "jsval \<Rightarrow> 'v object option \<Rightarrow> error + string option" where
  "findMatchingPattern modelName tokensMap =
     andThen (call_Object_keys tokensMap) (\<lambda>keys.
     andThen (call_toLowerCase modelName) (\<lambda>lowerModelName.
     Inr (scanKeys keys lowerModelName (length keys))))"

subsection \<open>getModelTokenValue\<close>

text \<open>\<^verbatim>\<open>value?.context\<close>: the context field of a record, \<^verbatim>\<open>undefined\<close> otherwise.\<close>

fun contextOf :: "tokenValue option \<Rightarrow> number option" where
  "contextOf (Some (Config c)) = context' c"
| "contextOf _ = None"

text \<open>\<^verbatim>\<open>result?.[key]\<close>, kept when \<^verbatim>\<open>typeof\<close> says it is a number.\<close>

fun fieldOf :: "tokenValue option \<Rightarrow> field \<Rightarrow> number option" where
  "fieldOf (Some (Config c)) key = getField c key"
| "fieldOf _ key = None"

fun truthy_opt :: "number option \<Rightarrow> bool" where
  "truthy_opt None = False"
| "truthy_opt (Some n) = truthy_number n"

text \<open>
  The part of \<^verbatim>\<open>getModelTokenValue\<close> after the call of \<^verbatim>\<open>findMatchingPattern\<close>. In
  \<^verbatim>\<open>if (matchedPattern)\<close>, \<^verbatim>\<open>null\<close> and the empty string are falsy.
\<close>

definition lookupPattern ::
  "tokensMap option \<Rightarrow> field \<Rightarrow> string option \<Rightarrow> error + tokenValue option" where
  "lookupPattern tokensMap key matchedPattern =
     (case matchedPattern of
        None \<Rightarrow> readProp tokensMap ''system_default''
      | Some pattern \<Rightarrow>
          if pattern \<noteq> [] then
            andThen (readProp tokensMap pattern) (\<lambda>result.
            case result of
              Some (Number n) \<Rightarrow> Inr (Some (Number n))
            | _ \<Rightarrow>
               (case fieldOf result key of
                  Some tokenValue \<Rightarrow> Inr (Some (Number tokenValue))
                | None \<Rightarrow> readProp tokensMap ''system_default''))
          else readProp tokensMap ''system_default'')"

definition getModelTokenValue ::
  "jsval \<Rightarrow> tokensMap option \<Rightarrow> field \<Rightarrow> error + tokenValue option" where
  "getModelTokenValue modelName tokensMap key =
     (case modelName of
        JStr name \<Rightarrow>
          if tokensMap = None then Inr None
          else
            andThen (readProp tokensMap name) (\<lambda>value.
            case value of
              Some (Number n) \<Rightarrow> Inr (Some (Number n))
            | _ \<Rightarrow>
               if truthy_opt (contextOf value) then Inr (map_option Number (contextOf value))
               else andThen (findMatchingPattern modelName tokensMap)
                      (lookupPattern tokensMap key))
      | _ \<Rightarrow> Inr None)"

subsection \<open>matchModelName\<close>

text \<open>
  The built-in table \<^verbatim>\<open>maxTokensMap\<close> comes from \<^verbatim>\<open>librechat-data-provider\<close>; it is a
  parameter here, given by its own properties: the maps of the endpoints. For an endpoint
  name that the table only inherits from \<^verbatim>\<open>Object.prototype\<close>, the value read is a function
  or \<^verbatim>\<open>Object.prototype\<close> itself, which has no enumerable key: no pattern is found in it and
  every path returns the name, as when the table has nothing under the endpoint. The
  endpoint is passed explicitly (the source defaults it to \<^verbatim>\<open>EModelEndpoint.openAI\<close>), as
  is the requested field of \<open>getModelTokenValue\<close> (defaulted to \<^verbatim>\<open>context\<close>).
\<close>



subsection \<open>Number arithmetic\<close>

text \<open>
  Rounding of a non-negative real to the nearest binary64 value, ties to even: the result
  is a multiple of \<open>2^s\<close>, where \<open>s\<close> is 52 below the binary exponent of the argument and at
  least \<open>-1074\<close> (the subnormal range); a result of \<open>2^1024\<close> or more is an infinity.
\<close>

definition pow :: "real \<Rightarrow> int \<Rightarrow> real" where
  "pow b s = (if 0 \<le> s then b ^ nat s else 1 / b ^ nat (- s))"

function bitLength :: "nat \<Rightarrow> nat" where
  "bitLength n = (if n = 0 then 0 else Suc (bitLength (n div 2)))"
  by pat_completeness auto
termination
  by (relation "measure id") auto

declare bitLength.simps [simp del]

text \<open>The integer \<open>e\<close> with \<open>2^e \<le> x < 2^(e+1)\<close>, for \<open>x > 0\<close>.\<close>

definition floorLog2 :: "real \<Rightarrow> int" where
  "floorLog2 x =
     (if 1 \<le> x then int (bitLength (nat \<lfloor>x\<rfloor>)) - 1
      else - int (bitLength (nat \<lceil>1 / x\<rceil> - 1)))"

definition roundHalfEven :: "real \<Rightarrow> int" where
  "roundHalfEven y =
     (let n = \<lfloor>y\<rfloor>; f = y - of_int n
      in if f < 1 / 2 then n
         else if 1 / 2 < f then n + 1
         else if even n then n else n + 1)"

definition roundToDouble :: "bool \<Rightarrow> real \<Rightarrow> number" where
  "roundToDouble sign x =
     (if x = 0 then Finite sign 0
      else
        let s = max (floorLog2 x - 52) (- 1074);
            r = of_int (roundHalfEven (x / pow 2 s)) * pow 2 s
        in if 2 ^ 1024 \<le> r then Infinity sign else Finite sign r)"

text \<open>The operator \<^verbatim>\<open>*\<close> on numbers.\<close>

fun multiply :: "number \<Rightarrow> number \<Rightarrow> number" where
  "multiply NaN _ = NaN"
| "multiply _ NaN = NaN"
| "multiply (Infinity a) (Infinity b) = Infinity (a \<noteq> b)"
| "multiply (Infinity a) (Finite b y) = (if y = 0 then NaN else Infinity (a \<noteq> b))"
| "multiply (Finite a x) (Infinity b) = (if x = 0 then NaN else Infinity (a \<noteq> b))"
| "multiply (Finite a x) (Finite b y) = roundToDouble (a \<noteq> b) (x * y)"

text \<open>
  \<^verbatim>\<open>parseFloat\<close>: leading white space is skipped, then the longest prefix that is a decimal
  literal (a sign, then \<^verbatim>\<open>Infinity\<close> or digits with an optional fraction and an optional
  exponent) is read and its value rounded; without such a prefix the result is NaN. The
  value of the literal is rounded exactly, whatever the number of its digits.
\<close>

definition isWhiteSpace :: "char \<Rightarrow> bool" where
  "isWhiteSpace c =
     (let n = (of_char c :: nat) in (9 \<le> n \<and> n \<le> 13) \<or> n = 32 \<or> n = 160)"

fun exponentPart :: "string \<Rightarrow> int" where
  "exponentPart [] = 0"
| "exponentPart (c # rest) =
     (if c = CHR ''e'' \<or> c = CHR ''E'' then
        (case rest of
           [] \<Rightarrow> 0
         | d # rest' \<Rightarrow>
             (let digits = takeWhile isDigit (if d = CHR ''-'' \<or> d = CHR ''+'' then rest' else rest)
              in if digits = [] then 0
                 else if d = CHR ''-'' then - int (digitsValue digits)
                 else int (digitsValue digits)))
      else 0)"

fun signOf :: "string \<Rightarrow> bool \<times> string" where
  "signOf [] = (False, [])"
| "signOf (c # rest) =
     (if c = CHR ''-'' then (True, rest)
      else if c = CHR ''+'' then (False, rest)
      else (False, c # rest))"

fun fractionOf :: "string \<Rightarrow> string \<times> string" where
  "fractionOf [] = ([], [])"
| "fractionOf (c # rest) =
     (if c = CHR ''.'' then (takeWhile isDigit rest, dropWhile isDigit rest)
      else ([], c # rest))"

definition parseFloat :: "string \<Rightarrow> number" where
  "parseFloat inputString =
     (let (sign, unsigned) = signOf (dropWhile isWhiteSpace inputString)
      in if prefix ''Infinity'' unsigned then Infinity sign
         else
           let intDigits = takeWhile isDigit unsigned;
               (fracDigits, afterFrac) = fractionOf (dropWhile isDigit unsigned)
           in if intDigits = [] \<and> fracDigits = [] then NaN
              else roundToDouble sign
                     (of_nat (digitsValue (intDigits @ fracDigits))
                      * pow 10 (exponentPart afterFrac - int (length fracDigits))))"

subsection \<open>processModelData\<close>

datatype pricing = Pricing (pricing_prompt: string) (pricing_completion: string)

datatype model = Model (model_id: string) (model_pricing: pricing) (context_length: number)

text \<open>
  The schemas of the validation library: \<^verbatim>\<open>z.string()\<close> accepts strings only,
  \<^verbatim>\<open>z.number()\<close> numbers other than NaN, \<^verbatim>\<open>z.object\<close> an object that is not an array, whose
  listed keys pass (a missing key reads as \<^verbatim>\<open>undefined\<close>, other keys are dropped), and
  \<^verbatim>\<open>z.array\<close> an array whose elements all pass.
\<close>

fun z_string :: "jsval option \<Rightarrow> string option" where
  "z_string (Some (JStr s)) = Some s"
| "z_string _ = None"

fun z_number :: "jsval option \<Rightarrow> number option" where
  "z_number (Some (JNum n)) = (if n = NaN then None else Some n)"
| "z_number _ = None"

fun pricingSchema :: "jsval option \<Rightarrow> pricing option" where
  "pricingSchema (Some (JObj props)) =
     (case (z_string (map_of props ''prompt''), z_string (map_of props ''completion'')) of
        (Some p, Some c) \<Rightarrow> Some (Pricing p c)
      | _ \<Rightarrow> None)"
| "pricingSchema _ = None"

fun modelSchema :: "jsval \<Rightarrow> model option" where
  "modelSchema (JObj props) =
     (case (z_string (map_of props ''id''), pricingSchema (map_of props ''pricing''),
            z_number (map_of props ''context_length'')) of
        (Some i, Some p, Some c) \<Rightarrow> Some (Model i p c)
      | _ \<Rightarrow> None)"
| "modelSchema _ = None"

fun z_array :: "('a \<Rightarrow> 'b option) \<Rightarrow> 'a list \<Rightarrow> 'b list option" where
  "z_array schema [] = Some []"
| "z_array schema (v # vs) =
     (case schema v of
        None \<Rightarrow> None
      | Some x \<Rightarrow> (case z_array schema vs of None \<Rightarrow> None | Some xs \<Rightarrow> Some (x # xs)))"

fun inputSchema :: "jsval \<Rightarrow> model list option" where
  "inputSchema (JObj props) =
     (case map_of props ''data'' of
        Some (JArr vs) \<Rightarrow> z_array modelSchema vs
      | _ \<Rightarrow> None)"
| "inputSchema _ = None"

text \<open>The body of the loop \<^verbatim>\<open>for (const model of data)\<close>: the record stored under the id.\<close>

definition tokenConfigOf :: "model \<Rightarrow> TokenConfig" where
  "tokenConfigOf model =
     (let modelKey = model_id model;
          pricing = (if modelKey = ''openrouter/auto'' then Pricing ''0.00001'' ''0.00003''
                     else model_pricing model);
          prompt = multiply (parseFloat (pricing_prompt pricing)) (Finite False 1000000);
          completion = multiply (parseFloat (pricing_completion pricing)) (Finite False 1000000)
      in \<lparr>prompt = Some prompt, completion = Some completion,
          context' = Some (context_length model), output' = None\<rparr>)"

fun processModels :: "tokensMap \<Rightarrow> model list \<Rightarrow> tokensMap" where
  "processModels tokenConfig [] = tokenConfig"
| "processModels tokenConfig (model # rest) =
     processModels (setProp tokenConfig (model_id model) (tokenConfigOf model)) rest"

definition processModelData :: "jsval \<Rightarrow> error + tokensMap" where
  "processModelData input =
     (case inputSchema input of
        None \<Rightarrow> Inl InvalidInputData
      | Some data \<Rightarrow> Inr (processModels (plain []) data))"

text \<open>The entry that is written last under an id.\<close>

definition lastEntry :: "string \<Rightarrow> model list \<Rightarrow> model option" where
  "lastEntry k data = List.find (\<lambda>model. model_id model = k) (rev data)"

subsection \<open>The catalog shape, in the words of the specification\<close>

text \<open>
  \<^verbatim>\<open>{ data: CatalogEntry[] }\<close> with \<^verbatim>\<open>CatalogEntry\<close> being
  \<^verbatim>\<open>{ id: string, pricing: { prompt: string, completion: string }, context_length: number }\<close>.
\<close>

fun isString :: "jsval option \<Rightarrow> bool" where
  "isString (Some (JStr s)) = True"
| "isString _ = False"

fun isNumber :: "jsval option \<Rightarrow> bool" where
  "isNumber (Some (JNum n)) = True"
| "isNumber _ = False"

fun isPricing :: "jsval option \<Rightarrow> bool" where
  "isPricing (Some (JObj props)) =
     (isString (map_of props ''prompt'') \<and> isString (map_of props ''completion''))"
| "isPricing _ = False"

fun isCatalogEntry :: "jsval \<Rightarrow> bool" where
  "isCatalogEntry (JObj props) =
     (isString (map_of props ''id'') \<and> isPricing (map_of props ''pricing'')
      \<and> isNumber (map_of props ''context_length''))"
| "isCatalogEntry _ = False"

fun isCatalogInput :: "jsval \<Rightarrow> bool" where
  "isCatalogInput (JObj props) =
     (case map_of props ''data'' of
        Some (JArr vs) \<Rightarrow> list_all isCatalogEntry vs
      | _ \<Rightarrow> False)"
| "isCatalogInput _ = False"

subsection \<open>The resolution steps, in the words of the specification\<close>

text \<open>
  The exact-match steps yield a value when what the map gives under the name itself is a bare
  number or a record with a truthy context; the pattern step yields a value when a key matches and
  its entry is a bare number or holds a number at the requested field.
\<close>

definition exactMatchYields :: "tokensMap \<Rightarrow> string \<Rightarrow> bool" where
  "exactMatchYields m name =
     (case getProp m name of
        Some (Number n) \<Rightarrow> True
      | value \<Rightarrow> truthy_opt (contextOf value))"


section \<open>Properties\<close>

subsection \<open>Objects\<close>

lemma find_append_cases:
  "List.find P (xs @ ys) = (case List.find P xs of None \<Rightarrow> List.find P ys | Some x \<Rightarrow> Some x)"
  by (induction xs) auto

lemma keys_getOwn: "k \<in> set (Object_keys obj) \<longleftrightarrow> getOwn obj k \<noteq> None"
  by (simp add: Object_keys_def getOwn_def map_of_eq_None_iff)

lemma keys_replaceOwn: "map fst (replaceOwn k v ps) = map fst ps"
  by (induction ps) auto

lemma map_of_replaceOwn:
  "map_of ps k \<noteq> None \<Longrightarrow>
   map_of (replaceOwn k v ps) k' = (if k' = k then Some v else map_of ps k')"
  by (induction ps) auto

lemma map_of_insertIndex:
  "map_of (insertIndex k v ps) k' = (if k' = k then Some v else map_of ps k')"
  by (induction ps) auto

lemma map_of_append_new:
  "map_of ps k = None \<Longrightarrow>
   map_of (ps @ [(k, v)]) k' = (if k' = k then Some v else map_of ps k')"
  by (auto simp: map_add_def split: option.splits)

lemma map_of_putOwn:
  "map_of (putOwn ps k v) k' = (if k' = k then Some v else map_of ps k')"
proof (cases "map_of ps k")
  case None
  then have "k \<notin> set (map fst ps)"
    by (simp add: map_of_eq_None_iff)
  then have put: "putOwn ps k v = (if isArrayIndex k then insertIndex k v ps else ps @ [(k, v)])"
    by (simp add: putOwn_def)
  show ?thesis
  proof (cases "isArrayIndex k")
    case True
    with put show ?thesis by (simp only: if_True map_of_insertIndex)
  next
    case False
    with put show ?thesis by (simp only: if_False map_of_append_new [OF None])
  qed
next
  case (Some w)
  then have "k \<in> set (map fst ps)"
    by (metis map_of_eq_None_iff option.distinct(1) set_map)
  with Some show ?thesis
    by (simp add: putOwn_def map_of_replaceOwn)
qed

lemma getOwn_defineProperty:
  "getOwn (defineProperty obj k v) k' = (if k' = k then Some v else getOwn obj k')"
  by (simp add: getOwn_def defineProperty_def map_of_putOwn)


lemma keys_insertIndex_split:
  "\<exists>xs ys. map fst ps = xs @ ys \<and> map fst (insertIndex k v ps) = xs @ k # ys"
proof (induction ps)
  case Nil
  then show ?case by simp
next
  case (Cons p ps)
  obtain k' v' where p: "p = (k', v')" by (cases p)
  from Cons obtain xs ys where split: "map fst ps = xs @ ys"
    "map fst (insertIndex k v ps) = xs @ k # ys"
    by blast
  show ?case
  proof (cases "isArrayIndex k' \<and> digitsValue k' < digitsValue k")
    case True
    with p split have "map fst (p # ps) = (k' # xs) @ ys
        \<and> map fst (insertIndex k v (p # ps)) = (k' # xs) @ k # ys"
      by simp
    then show ?thesis by blast
  next
    case False
    with p have "map fst (p # ps) = [] @ (k' # map fst ps)
        \<and> map fst (insertIndex k v (p # ps)) = [] @ k # (k' # map fst ps)"
      by auto
    then show ?thesis by blast
  qed
qed

lemma keys_insertIndex_set: "set (map fst (insertIndex k v ps)) = insert k (set (map fst ps))"
proof -
  obtain xs ys where "map fst ps = xs @ ys" "map fst (insertIndex k v ps) = xs @ k # ys"
    using keys_insertIndex_split [of ps k v] by blast
  then show ?thesis by (simp only: set_append set_simps) blast
qed

lemma keys_insertIndex_distinct:
  assumes "k \<notin> set (map fst ps)" and "distinct (map fst ps)"
  shows "distinct (map fst (insertIndex k v ps))"
proof -
  obtain xs ys where "map fst ps = xs @ ys" "map fst (insertIndex k v ps) = xs @ k # ys"
    using keys_insertIndex_split [of ps k v] by blast
  with assms show ?thesis by (simp only: distinct_append distinct.simps set_append set_simps) blast
qed

lemma keys_putOwn_set: "set (map fst (putOwn ps k v)) = insert k (set (map fst ps))"
proof (cases "k \<in> set (map fst ps)")
  case True
  then show ?thesis
    by (simp only: putOwn_def if_True keys_replaceOwn) blast
next
  case False
  show ?thesis
  proof (cases "isArrayIndex k")
    case True
    with False show ?thesis
      by (simp only: putOwn_def if_True if_False keys_insertIndex_set)
  next
    case index: False
    with False have "putOwn ps k v = ps @ [(k, v)]"
      by (simp only: putOwn_def if_False)
    then show ?thesis by simp
  qed
qed

lemma keys_putOwn_distinct:
  assumes "distinct (map fst ps)"
  shows "distinct (map fst (putOwn ps k v))"
proof (cases "k \<in> set (map fst ps)")
  case True
  with assms show ?thesis
    by (simp only: putOwn_def if_True keys_replaceOwn)
next
  case False
  show ?thesis
  proof (cases "isArrayIndex k")
    case True
    with False have "putOwn ps k v = insertIndex k v ps"
      by (simp only: putOwn_def if_True if_False)
    then show ?thesis
      by (simp only: keys_insertIndex_distinct [OF False assms])
  next
    case index: False
    with False have "putOwn ps k v = ps @ [(k, v)]"
      by (simp only: putOwn_def if_False)
    with False assms show ?thesis by simp
  qed
qed

lemma keys_insertIndex_insort:
  "list_all isArrayIndex (map fst idx) \<Longrightarrow> list_all (\<lambda>k. \<not> isArrayIndex k) (map fst non) \<Longrightarrow>
   map fst (insertIndex k v (idx @ non))
     = insort_key digitsValue k (map fst idx) @ map fst non"
proof (induction idx)
  case Nil
  then show ?case by (cases non) auto
next
  case (Cons p idx)
  then show ?case by (cases p) auto
qed

lemma foldl_putOwn_order:
  assumes "distinct (map fst ps @ map fst es)"
    and "map fst ps = idx @ non"
    and "list_all isArrayIndex idx"
    and "list_all (\<lambda>k. \<not> isArrayIndex k) non"
    and "sorted (map digitsValue idx)"
  shows "\<exists>idx'. map fst (foldl (\<lambda>ps (k, v). putOwn ps k v) ps es)
                  = idx' @ non @ filter (\<lambda>k. \<not> isArrayIndex k) (map fst es)
               \<and> list_all isArrayIndex idx' \<and> sorted (map digitsValue idx')"
  using assms
proof (induction es arbitrary: ps idx non)
  case Nil
  then show ?case by auto
next
  case (Cons e es)
  obtain k v where e: "e = (k, v)" by (cases e)
  from Cons.prems(1) e have new: "k \<notin> set (map fst ps)"
    and rest: "k \<notin> set (map fst es)" "distinct (map fst es)" "distinct (map fst ps)"
      "set (map fst ps) \<inter> set (map fst es) = {}"
    by (auto simp del: set_map)
  have "distinct (map fst (putOwn ps k v))"
    using rest(3) by (rule keys_putOwn_distinct)
  moreover have "set (map fst (putOwn ps k v)) \<inter> set (map fst es) = {}"
    using rest(1,4) new by (simp only: keys_putOwn_set) blast
  ultimately have dist: "distinct (map fst (putOwn ps k v) @ map fst es)"
    using rest(2) by (simp only: distinct_append)
  show ?case
  proof (cases "isArrayIndex k")
    case True
    define pi where "pi = take (length idx) ps"
    define pn where "pn = drop (length idx) ps"
    have ps: "ps = pi @ pn"
      by (simp add: pi_def pn_def)
    have pi: "map fst pi = idx"
      using Cons.prems(2) by (simp add: pi_def take_map [symmetric])
    have pn: "map fst pn = non"
      using Cons.prems(2) by (simp add: pn_def drop_map [symmetric])
    from new True have "putOwn ps k v = insertIndex k v (pi @ pn)"
      by (simp only: putOwn_def if_True if_False ps [symmetric])
    moreover have "map fst (insertIndex k v (pi @ pn))
                     = insort_key digitsValue k (map fst pi) @ map fst pn"
      using Cons.prems(3,4) by (intro keys_insertIndex_insort) (simp_all only: pi pn)
    ultimately have keys: "map fst (putOwn ps k v) = insort_key digitsValue k idx @ non"
      by (simp only: pi pn)
    have all: "list_all isArrayIndex (insort_key digitsValue k idx)"
      using Cons.prems(3) True by (simp add: list_all_iff set_insort_key)
    have sorted: "sorted (map digitsValue (insort_key digitsValue k idx))"
      using Cons.prems(5) by (simp add: sorted_insort_key)
    from Cons.IH [OF dist keys all Cons.prems(4) sorted] e True show ?thesis
      by simp
  next
    case False
    from new False have "putOwn ps k v = ps @ [(k, v)]"
      by (simp only: putOwn_def if_False)
    then have keys: "map fst (putOwn ps k v) = idx @ (non @ [k])"
      using Cons.prems(2) by simp
    have non: "list_all (\<lambda>k. \<not> isArrayIndex k) (non @ [k])"
      using Cons.prems(4) False by simp
    from Cons.IH [OF dist keys Cons.prems(3) non Cons.prems(5)] e False show ?thesis
      by simp
  qed
qed

lemma foldl_putOwn_set:
  "set (map fst (foldl (\<lambda>ps (k, v). putOwn ps k v) ps es)) = set (map fst ps) \<union> set (map fst es)"
proof (induction es arbitrary: ps)
  case Nil
  then show ?case by simp
next
  case (Cons e es)
  obtain k v where e: "e = (k, v)" by (cases e)
  have "set (map fst (foldl (\<lambda>ps (k, v). putOwn ps k v) (putOwn ps k v) es))
          = set (map fst (putOwn ps k v)) \<union> set (map fst es)"
    by (rule Cons.IH)
  then show ?case
    by (simp only: e foldl_Cons prod.case keys_putOwn_set list.map fst_conv set_simps) blast
qed

lemma foldl_putOwn_distinct:
  "distinct (map fst ps) \<Longrightarrow> distinct (map fst (foldl (\<lambda>ps (k, v). putOwn ps k v) ps es))"
proof (induction es arbitrary: ps)
  case Nil
  then show ?case by simp
next
  case (Cons e es)
  obtain k v where e: "e = (k, v)" by (cases e)
  from Cons.prems have "distinct (map fst (putOwn ps k v))"
    by (rule keys_putOwn_distinct)
  then have "distinct (map fst (foldl (\<lambda>ps (k, v). putOwn ps k v) (putOwn ps k v) es))"
    by (rule Cons.IH)
  then show ?case
    by (simp only: e foldl_Cons prod.case)
qed

lemma ownProps_foldl_defineProperty:
  "ownProps (foldl (\<lambda>obj (k, v). defineProperty obj k v) obj es)
     = foldl (\<lambda>ps (k, v). putOwn ps k v) (ownProps obj) es"
proof (induction es arbitrary: obj)
  case Nil
  then show ?case by simp
next
  case (Cons e es)
  obtain k v where e: "e = (k, v)" by (cases e)
  show ?case
    by (simp only: e foldl_Cons prod.case Cons.IH) (simp add: defineProperty_def)
qed

lemma Object_keys_fromEntries_foldl:
  "Object_keys (fromEntries es) = map fst (foldl (\<lambda>ps (k, v). putOwn ps k v) [] es)"
  by (simp add: Object_keys_def fromEntries_def ownProps_foldl_defineProperty plain_def)

lemma Object_keys_fromEntries_order:
  assumes "distinct (map fst es)"
  shows "\<exists>idx. Object_keys (fromEntries es) = idx @ filter (\<lambda>k. \<not> isArrayIndex k) (map fst es)
           \<and> list_all isArrayIndex idx \<and> sorted (map digitsValue idx)"
proof -
  have "\<exists>idx'. map fst (foldl (\<lambda>ps (k, v). putOwn ps k v) [] es)
                  = idx' @ [] @ filter (\<lambda>k. \<not> isArrayIndex k) (map fst es)
               \<and> list_all isArrayIndex idx' \<and> sorted (map digitsValue idx')"
    using assms by (intro foldl_putOwn_order [where idx = "[]"]) simp_all
  then show ?thesis
    by (simp add: Object_keys_fromEntries_foldl)
qed

lemma Object_keys_fromEntries:
  "distinct (map fst es) \<Longrightarrow> \<forall>k \<in> set (map fst es). \<not> isArrayIndex k \<Longrightarrow>
   Object_keys (fromEntries es) = map fst es"
proof -
  assume dist: "distinct (map fst es)" and none: "\<forall>k \<in> set (map fst es). \<not> isArrayIndex k"
  from Object_keys_fromEntries_order [OF dist] obtain idx where
    keys: "Object_keys (fromEntries es) = idx @ filter (\<lambda>k. \<not> isArrayIndex k) (map fst es)"
    and idx: "list_all isArrayIndex idx"
    by blast
  have "set idx \<subseteq> set (Object_keys (fromEntries es))"
    by (simp only: keys set_append) blast
  also have "\<dots> = set (map fst es)"
    by (simp only: Object_keys_fromEntries_foldl foldl_putOwn_set) simp
  finally have "set idx \<subseteq> set (map fst es)" .
  with none idx have "idx = []"
    by (cases idx) (auto simp del: set_map)
  moreover from none have "filter (\<lambda>k. \<not> isArrayIndex k) (map fst es) = map fst es"
    by (simp only: filter_id_conv)
  ultimately show ?thesis
    by (simp only: keys append_Nil)
qed

subsection \<open>findMatchingPattern\<close>

lemma scanKeys_find:
  "n \<le> length keys \<Longrightarrow>
   scanKeys keys l n = List.find (str_includes l) (rev (take n keys))"
proof (induction n)
  case 0
  then show ?case by simp
next
  case (Suc n)
  then have "take (Suc n) keys = take n keys @ [keys ! n]"
    by (simp add: take_Suc_conv_app_nth)
  with Suc show ?case by (simp add: Let_def)
qed

lemma findMatchingPattern_find:
  "findMatchingPattern (JStr name) (Some m) =
   Inr (List.find (str_includes (toLowerCase name)) (rev (Object_keys m)))"
  by (simp add: findMatchingPattern_def scanKeys_find)

lemma find_rev_last_match:
  "List.find P (rev keys) = Some k \<longleftrightarrow>
   (\<exists>i < length keys. keys ! i = k \<and> P k \<and> (\<forall>j. i < j \<and> j < length keys \<longrightarrow> \<not> P (keys ! j)))"
proof (induction keys rule: rev_induct)
  case Nil
  then show ?case by simp
next
  case (snoc x keys)
  show ?case
  proof (cases "P x")
    case True
    have "(\<exists>i < Suc (length keys). (keys @ [x]) ! i = k \<and> P k \<and>
            (\<forall>j. i < j \<and> j < Suc (length keys) \<longrightarrow> \<not> P ((keys @ [x]) ! j))) \<longleftrightarrow> x = k"
    proof
      assume "\<exists>i < Suc (length keys). (keys @ [x]) ! i = k \<and> P k \<and>
            (\<forall>j. i < j \<and> j < Suc (length keys) \<longrightarrow> \<not> P ((keys @ [x]) ! j))"
      then obtain i where i: "i < Suc (length keys)" "(keys @ [x]) ! i = k"
        and later: "\<forall>j. i < j \<and> j < Suc (length keys) \<longrightarrow> \<not> P ((keys @ [x]) ! j)"
        by blast
      have "i = length keys"
      proof (rule ccontr)
        assume "i \<noteq> length keys"
        with i have "i < length keys" by simp
        with later [rule_format, of "length keys"] have "\<not> P ((keys @ [x]) ! length keys)"
          by simp
        with True show False by simp
      qed
      with i show "x = k" by simp
    next
      assume "x = k"
      with True show "\<exists>i < Suc (length keys). (keys @ [x]) ! i = k \<and> P k \<and>
            (\<forall>j. i < j \<and> j < Suc (length keys) \<longrightarrow> \<not> P ((keys @ [x]) ! j))"
        by (intro exI [of _ "length keys"]) auto
    qed
    with True show ?thesis by simp
  next
    case False
    have "(\<exists>i < Suc (length keys). (keys @ [x]) ! i = k \<and> P k \<and>
            (\<forall>j. i < j \<and> j < Suc (length keys) \<longrightarrow> \<not> P ((keys @ [x]) ! j))) \<longleftrightarrow>
          (\<exists>i < length keys. keys ! i = k \<and> P k \<and>
            (\<forall>j. i < j \<and> j < length keys \<longrightarrow> \<not> P (keys ! j)))"
      (is "?L \<longleftrightarrow> ?R")
    proof
      assume ?L
      then obtain i where i: "i < Suc (length keys)" "(keys @ [x]) ! i = k" "P k"
        and later: "\<forall>j. i < j \<and> j < Suc (length keys) \<longrightarrow> \<not> P ((keys @ [x]) ! j)"
        by blast
      from i False have "i \<noteq> length keys" by auto
      with i have lt: "i < length keys" by simp
      with i have "keys ! i = k" by (simp add: nth_append)
      moreover have "\<forall>j. i < j \<and> j < length keys \<longrightarrow> \<not> P (keys ! j)"
      proof (intro allI impI)
        fix j assume j: "i < j \<and> j < length keys"
        with later [rule_format, of j] have "\<not> P ((keys @ [x]) ! j)" by simp
        with j show "\<not> P (keys ! j)" by (simp add: nth_append)
      qed
      ultimately show ?R using lt i by blast
    next
      assume ?R
      then obtain i where i: "i < length keys" "keys ! i = k" "P k"
        and later: "\<forall>j. i < j \<and> j < length keys \<longrightarrow> \<not> P (keys ! j)"
        by blast
      have "\<forall>j. i < j \<and> j < Suc (length keys) \<longrightarrow> \<not> P ((keys @ [x]) ! j)"
      proof (intro allI impI)
        fix j assume j: "i < j \<and> j < Suc (length keys)"
        show "\<not> P ((keys @ [x]) ! j)"
        proof (cases "j = length keys")
          case True
          with False show ?thesis by simp
        next
          case False
          with j have "j < length keys" by simp
          with later [rule_format, of j] j show ?thesis by (simp add: nth_append)
        qed
      qed
      moreover from i have "(keys @ [x]) ! i = k" by (simp add: nth_append)
      ultimately show ?L using i by (intro exI [of _ i]) simp
    qed
    with False snoc show ?thesis by simp
  qed
qed

lemma Object_keys_redefine:
  "getOwn obj k \<noteq> None \<Longrightarrow> Object_keys (defineProperty obj k v) = Object_keys obj"
proof -
  assume "getOwn obj k \<noteq> None"
  then have "k \<in> set (Object_keys obj)"
    by (simp add: keys_getOwn)
  then have "k \<in> set (map fst (ownProps obj))"
    by (simp only: Object_keys_def)
  then have "putOwn (ownProps obj) k v = replaceOwn k v (ownProps obj)"
    by (simp only: putOwn_def if_True)
  then show ?thesis
    by (simp add: Object_keys_def defineProperty_def keys_replaceOwn)
qed

lemma Object_keys_fromEntries_full:
  assumes "distinct (map fst es)"
  shows "\<exists>idx. Object_keys (fromEntries es)
                  = idx @ filter (\<lambda>k. \<not> isArrayIndex k) (map fst es)
           \<and> sorted (map digitsValue idx)
           \<and> distinct idx
           \<and> set idx = set (filter isArrayIndex (map fst es))"
proof -
  from Object_keys_fromEntries_order [OF assms] obtain idx where
    keys: "Object_keys (fromEntries es) = idx @ filter (\<lambda>k. \<not> isArrayIndex k) (map fst es)"
    and idx: "list_all isArrayIndex idx" and sorted: "sorted (map digitsValue idx)"
    by blast
  have all: "set (Object_keys (fromEntries es)) = set (map fst es)"
    by (simp only: Object_keys_fromEntries_foldl foldl_putOwn_set) simp
  have "distinct (Object_keys (fromEntries es))"
    by (simp only: Object_keys_fromEntries_foldl) (rule foldl_putOwn_distinct, simp)
  then have dist: "distinct idx"
    by (simp only: keys distinct_append)
  have "set idx = set (filter isArrayIndex (map fst es))"
  proof (intro set_eqI iffI)
    fix k assume k: "k \<in> set idx"
    with idx have "isArrayIndex k"
      by (simp add: list_all_iff)
    moreover from k have "k \<in> set (Object_keys (fromEntries es))"
      by (simp only: keys set_append) blast
    ultimately show "k \<in> set (filter isArrayIndex (map fst es))"
      by (simp only: all set_filter) blast
  next
    fix k assume "k \<in> set (filter isArrayIndex (map fst es))"
    then have index: "isArrayIndex k" and "k \<in> set (map fst es)"
      by (simp_all only: set_filter) blast+
    then have "k \<in> set (idx @ filter (\<lambda>k. \<not> isArrayIndex k) (map fst es))"
      by (simp only: all [symmetric] keys [symmetric])
    with index show "k \<in> set idx"
      by (simp only: set_append set_filter) blast
  qed
  with keys sorted dist show ?thesis
    by blast
qed

text \<open>
  C1 (as the code has it). For every model name and every tokens map, \<open>findMatchingPattern\<close>
  returns the key that stands last in the \<^verbatim>\<open>Object.keys\<close> enumeration among the keys that are
  substrings of the lowercased model name: the result is a key of the map, it is a substring of
  the lowercased name, and no key enumerated after it is one. It returns \<^verbatim>\<open>null\<close> exactly when
  no key matches, in particular on the empty map. The enumeration of a map built by defining
  its entries one after the other, under keys that differ, is the order of definition whenever
  no key is an array index; in general the array-index keys are enumerated first, in ascending
  numeric order whatever the order they were defined in, and the other keys after them in the
  order of definition. Defining again a key that the map has leaves the enumeration as it is.
\<close>

theorem findMatchingPattern_last_enumerated_match:
  fixes tokensMap obj :: "'v object" and es :: "(string \<times> 'v) list"
  shows
  "(\<exists>r. findMatchingPattern (JStr modelName) (Some tokensMap) = Inr r \<and>
      (r = None \<longleftrightarrow>
         (\<forall>k \<in> set (Object_keys tokensMap). \<not> str_includes (toLowerCase modelName) k)) \<and>
      (\<forall>k. r = Some k \<longleftrightarrow>
         (\<exists>i < length (Object_keys tokensMap).
            Object_keys tokensMap ! i = k \<and> str_includes (toLowerCase modelName) k \<and>
            (\<forall>j. i < j \<and> j < length (Object_keys tokensMap) \<longrightarrow>
                 \<not> str_includes (toLowerCase modelName) (Object_keys tokensMap ! j)))))
   \<and> findMatchingPattern (JStr modelName) (Some (plain [] :: 'v object)) = Inr None
   \<and> (distinct (map fst es) \<and> (\<forall>k \<in> set (map fst es). \<not> isArrayIndex k) \<longrightarrow>
        Object_keys (fromEntries es) = map fst es)
   \<and> (distinct (map fst es) \<longrightarrow>
        (\<exists>idx. Object_keys (fromEntries es)
                  = idx @ filter (\<lambda>k. \<not> isArrayIndex k) (map fst es)
           \<and> sorted (map digitsValue idx)
           \<and> distinct idx
           \<and> set idx = set (filter isArrayIndex (map fst es))))
   \<and> (getOwn obj k' \<noteq> None \<longrightarrow> Object_keys (defineProperty obj k' v) = Object_keys obj)"
proof -
  define P where "P = str_includes (toLowerCase modelName)"
  define keys where "keys = Object_keys tokensMap"
  define r where "r = List.find P (rev keys)"
  have run: "findMatchingPattern (JStr modelName) (Some tokensMap) = Inr r"
    by (simp add: findMatchingPattern_find r_def P_def keys_def)
  have none: "r = None \<longleftrightarrow> (\<forall>k \<in> set keys. \<not> P k)"
    by (simp add: r_def find_None_iff Ball_def)
  have some: "\<forall>k. r = Some k \<longleftrightarrow>
         (\<exists>i < length keys. keys ! i = k \<and> P k \<and>
            (\<forall>j. i < j \<and> j < length keys \<longrightarrow> \<not> P (keys ! j)))"
    unfolding r_def by (rule allI) (rule find_rev_last_match)
  have first: "\<exists>r. findMatchingPattern (JStr modelName) (Some tokensMap) = Inr r \<and>
      (r = None \<longleftrightarrow> (\<forall>k \<in> set keys. \<not> P k)) \<and>
      (\<forall>k. r = Some k \<longleftrightarrow>
         (\<exists>i < length keys. keys ! i = k \<and> P k \<and>
            (\<forall>j. i < j \<and> j < length keys \<longrightarrow> \<not> P (keys ! j))))"
    by (rule exI [of _ r]) (intro conjI run none some)
  have empty: "findMatchingPattern (JStr modelName) (Some (plain [] :: 'v object)) = Inr None"
    by (simp add: findMatchingPattern_find Object_keys_def plain_def)
  have built: "distinct (map fst es) \<and> (\<forall>k \<in> set (map fst es). \<not> isArrayIndex k) \<longrightarrow>
        Object_keys (fromEntries es) = map fst es"
    by (rule impI) (simp add: Object_keys_fromEntries)
  have order: "distinct (map fst es) \<longrightarrow>
        (\<exists>idx. Object_keys (fromEntries es)
                  = idx @ filter (\<lambda>k. \<not> isArrayIndex k) (map fst es)
           \<and> sorted (map digitsValue idx)
           \<and> distinct idx
           \<and> set idx = set (filter isArrayIndex (map fst es)))"
    by (rule impI) (rule Object_keys_fromEntries_full)
  have again: "getOwn obj k' \<noteq> None \<longrightarrow>
        Object_keys (defineProperty obj k' v) = Object_keys obj"
    by (rule impI) (rule Object_keys_redefine)
  from first empty built order again show ?thesis
    unfolding P_def keys_def by (intro conjI)
qed

theorem findMatchingPattern_last_enumerated_match_witness:
  "distinct (map fst [(''gpt-4'', Number (Finite False 8192)), (''gpt-4-32k'', Number (Finite False 32768)),
                      (''claude'', Number (Finite False 100000))])
   \<and> \<not> isArrayIndex ''gpt-4'' \<and> \<not> isArrayIndex ''gpt-4-32k'' \<and> \<not> isArrayIndex ''claude''
   \<and> Object_keys (fromEntries [(''gpt-4'', Number (Finite False 8192)),
                               (''gpt-4-32k'', Number (Finite False 32768)),
                               (''claude'', Number (Finite False 100000))])
       = [''gpt-4'', ''gpt-4-32k'', ''claude'']
   \<and> findMatchingPattern (JStr ''GPT-4-32k-0613'')
        (Some (fromEntries [(''gpt-4'', Number (Finite False 8192)),
                            (''gpt-4-32k'', Number (Finite False 32768)),
                            (''claude'', Number (Finite False 100000))]))
       = Inr (Some ''gpt-4-32k'')
   \<and> distinct (map fst [(''b'', Number (Finite False 1)), (''10'', Number (Finite False 2)),
                        (''9'', Number (Finite False 3))])
   \<and> (\<exists>idx. Object_keys (fromEntries [(''b'', Number (Finite False 1)),
                                       (''10'', Number (Finite False 2)),
                                       (''9'', Number (Finite False 3))]) = idx @ [''b'']
          \<and> sorted (map digitsValue idx) \<and> distinct idx \<and> set idx = {''10'', ''9''})
   \<and> Object_keys (fromEntries [(''b'', Number (Finite False 1)), (''10'', Number (Finite False 2)),
                               (''9'', Number (Finite False 3))]) = [''9'', ''10'', ''b'']
   \<and> getOwn (plain [(''gpt-4'', Number (Finite False 8192)), (''claude'', Number (Finite False 100000))])
        ''gpt-4'' \<noteq> None
   \<and> Object_keys (defineProperty
        (plain [(''gpt-4'', Number (Finite False 8192)), (''claude'', Number (Finite False 100000))])
        ''gpt-4'' (Number (Finite False 8191))) = [''gpt-4'', ''claude'']"
proof -
  let ?es = "[(''gpt-4'', Number (Finite False 8192)), (''gpt-4-32k'', Number (Finite False 32768)),
              (''claude'', Number (Finite False 100000))]"
  let ?es' = "[(''b'', Number (Finite False 1)), (''10'', Number (Finite False 2)),
               (''9'', Number (Finite False 3))]"
  let ?obj = "plain [(''gpt-4'', Number (Finite False 8192)), (''claude'', Number (Finite False 100000))]"
  have index: "\<not> isArrayIndex ''gpt-4''" "\<not> isArrayIndex ''gpt-4-32k''" "\<not> isArrayIndex ''claude''"
    "\<not> isArrayIndex ''b''" "isArrayIndex ''10''" "isArrayIndex ''9''"
    by (simp_all add: isArrayIndex_def isDigit_def digitsValue_def)
  have h: "distinct (map fst ?es) \<and> (\<forall>k \<in> set (map fst ?es). \<not> isArrayIndex k)"
    by (simp add: index)
  have h': "distinct (map fst ?es')"
    by simp
  have h'': "getOwn ?obj ''gpt-4'' \<noteq> None"
    by (simp add: getOwn_def plain_def)
  note inst = findMatchingPattern_last_enumerated_match
                [of "''GPT-4-32k-0613''" "fromEntries ?es" ?es' ?obj "''gpt-4''" "Number (Finite False 8191)"]
  note inst0 = findMatchingPattern_last_enumerated_match
                [of "''GPT-4-32k-0613''" "fromEntries ?es" ?es ?obj "''gpt-4''" "Number (Finite False 8191)"]
  from inst0 [THEN conjunct2, THEN conjunct2, THEN conjunct1] h
  have keys: "Object_keys (fromEntries ?es) = map fst ?es"
    by (rule mp)
  from inst [THEN conjunct2, THEN conjunct2, THEN conjunct2, THEN conjunct1] h'
  have "\<exists>idx. Object_keys (fromEntries ?es')
                  = idx @ filter (\<lambda>k. \<not> isArrayIndex k) (map fst ?es')
           \<and> sorted (map digitsValue idx) \<and> distinct idx
           \<and> set idx = set (filter isArrayIndex (map fst ?es'))"
    by (rule mp)
  then have order: "\<exists>idx. Object_keys (fromEntries ?es') = idx @ [''b'']
           \<and> sorted (map digitsValue idx) \<and> distinct idx \<and> set idx = {''10'', ''9''}"
    by (simp add: index)
  from inst [THEN conjunct2, THEN conjunct2, THEN conjunct2, THEN conjunct2] h''
  have "Object_keys (defineProperty ?obj ''gpt-4'' (Number (Finite False 8191))) = Object_keys ?obj"
    by (rule mp)
  then have again: "Object_keys (defineProperty ?obj ''gpt-4'' (Number (Finite False 8191)))
                      = [''gpt-4'', ''claude'']"
    by (simp add: Object_keys_def plain_def)
  have keys': "Object_keys (fromEntries ?es') = [''9'', ''10'', ''b'']"
    by (simp add: fromEntries_def defineProperty_def putOwn_def Object_keys_def plain_def index
          digitsValue_def)
  have lower: "toLowerCase ''GPT-4-32k-0613'' = ''gpt-4-32k-0613''"
    by code_simp
  have run: "findMatchingPattern (JStr ''GPT-4-32k-0613'') (Some (fromEntries ?es))
               = Inr (Some ''gpt-4-32k'')"
    by (simp add: findMatchingPattern_find keys lower str_includes_def sublist_code)
  from h h' h'' index keys run order keys' again show ?thesis
    by simp
qed

text \<open>
  The enumeration is not the insertion order in general: the key \<open>4\<close> is an array index and is
  enumerated before \<open>gpt\<close>, although it was inserted after it. Both keys match \<open>gpt-4\<close>, the
  key inserted last is \<open>4\<close>, and the key returned is \<open>gpt\<close>.
\<close>

theorem findMatchingPattern_insertion_order_counterexample:
  "findMatchingPattern (JStr ''gpt-4'')
     (Some (fromEntries [(''gpt'', Number (Finite False 4096)), (''4'', Number (Finite False 8192))]))
     = Inr (Some ''gpt'')
   \<and> str_includes (toLowerCase ''gpt-4'') ''4''"
proof -
  have lower: "toLowerCase ''gpt-4'' = ''gpt-4''"
    by code_simp
  have index: "isArrayIndex ''4''" "\<not> isArrayIndex ''gpt''"
    by (simp_all add: isArrayIndex_def isDigit_def digitsValue_def)
  have built: "fromEntries [(''gpt'', Number (Finite False 4096)), (''4'', Number (Finite False 8192))]
     = plain [(''4'', Number (Finite False 8192)), (''gpt'', Number (Finite False 4096))]"
    by (simp add: fromEntries_def defineProperty_def putOwn_def plain_def index)
  show ?thesis
    unfolding built
    by (simp add: findMatchingPattern_def Object_keys_def plain_def lower str_includes_def
          sublist_code)
qed

subsection \<open>getModelTokenValue\<close>

lemmas object_eval =
  getOwn_def getProp_def Object_keys_def plain_def objectPrototypeNames_def recordProp_def

lemma find_Some_member: "List.find P xs = Some x \<Longrightarrow> x \<in> set xs \<and> P x"
  by (induction xs) (auto split: if_splits)

lemma getProp_own: "getOwn m k = Some v \<Longrightarrow> getProp m k = Some v"
  by (simp add: getProp_def)

lemma getProp_key: "k \<in> set (Object_keys m) \<Longrightarrow> getProp m k = getOwn m k"
  by (auto simp: keys_getOwn getProp_def)

lemma getProp_system_default: "getProp m ''system_default'' = getOwn m ''system_default''"
  by (simp add: getProp_def recordProp_def objectPrototypeNames_def split: option.splits)

lemma getModelTokenValue_string:
  "getModelTokenValue (JStr name) (Some m) key =
     (case getProp m name of
        Some (Number n) \<Rightarrow> Inr (Some (Number n))
      | value \<Rightarrow>
          if truthy_opt (contextOf value) then Inr (map_option Number (contextOf value))
          else lookupPattern (Some m) key
                 (List.find (str_includes (toLowerCase name)) (rev (Object_keys m))))"
  by (simp add: getModelTokenValue_def findMatchingPattern_find
           split: option.splits tokenValue.splits)

text \<open>
  C2 (as the code has it). For every model name that is an exact key of the tokens map whose
  value is a structured record with a truthy context (a number other than \<open>0\<close>, \<open>-0\<close> and
  NaN), \<open>getModelTokenValue\<close> returns that context, whichever field is requested.
\<close>

theorem getModelTokenValue_exact_truthy_context:
  assumes "getOwn tokensMap name = Some (Config c)"
    and "context' c = Some n"
    and "truthy_number n"
  shows "getModelTokenValue (JStr name) (Some tokensMap) key = Inr (Some (Number n))"
  using assms by (simp add: getModelTokenValue_string getProp_own)

theorem getModelTokenValue_exact_truthy_context_witness:
  "getOwn (plain [(''m1'', Config \<lparr>prompt = Some (Finite False 2), completion = Some (Finite False 4),
                              context' = Some (Finite False 8192), output' = None\<rparr>)]) ''m1''
     = Some (Config \<lparr>prompt = Some (Finite False 2), completion = Some (Finite False 4),
                     context' = Some (Finite False 8192), output' = None\<rparr>)
   \<and> truthy_number (Finite False 8192)
   \<and> getModelTokenValue (JStr ''m1'')
        (Some (plain [(''m1'', Config \<lparr>prompt = Some (Finite False 2), completion = Some (Finite False 4),
                                 context' = Some (Finite False 8192), output' = None\<rparr>)])) Prompt
     = Inr (Some (Number (Finite False 8192)))"
proof -
  let ?c = "\<lparr>prompt = Some (Finite False 2), completion = Some (Finite False 4),
             context' = Some (Finite False 8192), output' = None\<rparr>"
  have h1: "getOwn (plain [(''m1'', Config ?c)]) ''m1'' = Some (Config ?c)"
    by (simp add: object_eval)
  have h2: "context' ?c = Some (Finite False 8192)"
    by simp
  have h3: "truthy_number (Finite False 8192)"
    by simp
  from getModelTokenValue_exact_truthy_context [OF h1 h2 h3, of Prompt] h1 h3
  show ?thesis by simp
qed

text \<open>
  A context of \<open>0\<close> is populated and falsy: the test \<^verbatim>\<open>if (value?.context)\<close> fails, the name is
  resolved as a pattern, and the requested field \<open>prompt\<close> of the matched entry is returned, not
  the context.
\<close>

theorem getModelTokenValue_zero_context_counterexample:
  "getOwn (plain [(''m1'', Config \<lparr>prompt = Some (Finite False 2), completion = Some (Finite False 4),
                              context' = Some (Finite False 0), output' = None\<rparr>)]) ''m1''
     = Some (Config \<lparr>prompt = Some (Finite False 2), completion = Some (Finite False 4),
                     context' = Some (Finite False 0), output' = None\<rparr>)
   \<and> getModelTokenValue (JStr ''m1'')
        (Some (plain [(''m1'', Config \<lparr>prompt = Some (Finite False 2), completion = Some (Finite False 4),
                                 context' = Some (Finite False 0), output' = None\<rparr>)])) Prompt
     = Inr (Some (Number (Finite False 2)))
   \<and> Number (Finite False 2) \<noteq> Number (Finite False 0)"
proof -
  have lower: "toLowerCase ''m1'' = ''m1''"
    by code_simp
  show ?thesis
    by (simp add: getModelTokenValue_string getProp_own object_eval Object_keys_def lower lookupPattern_def getProp_system_default getProp_own
          str_includes_def sublist_code)
qed






lemma getModelTokenValue_pattern_path:
  "\<not> exactMatchYields m name \<Longrightarrow>
   getModelTokenValue (JStr name) (Some m) key =
   lookupPattern (Some m) key (List.find (str_includes (toLowerCase name)) (rev (Object_keys m)))"
  by (simp add: getModelTokenValue_string getProp_own exactMatchYields_def getProp_own
        split: option.splits tokenValue.splits)





lemma find_self_match:
  "k \<in> set keys \<Longrightarrow> P k \<Longrightarrow> List.find P (rev keys) \<noteq> None"
  by (auto simp: find_None_iff)

lemma str_includes_refl: "str_includes s s"
  by (simp add: str_includes_def)

text \<open>
  C9. When the model name is an exact key of the tokens map whose value is a structured record
  without a populated (truthy) context, \<open>getModelTokenValue\<close> does not stop at the exact
  match: its result is the result of the pattern step on the key that \<open>findMatchingPattern\<close>
  returns (a key is found whenever the name is its own lowercase form, the name itself being
  a candidate). The requested field of the matched record is returned when it holds a number;
  when the matched record holds none there, or when no key matches, \<open>system_default\<close> is
  returned.
\<close>

theorem getModelTokenValue_exact_without_context:
  assumes "getOwn m name = Some (Config c)"
    and "\<not> truthy_opt (context' c)"
  shows "\<exists>p. findMatchingPattern (JStr name) (Some m) = Inr p
           \<and> getModelTokenValue (JStr name) (Some m) key = lookupPattern (Some m) key p
           \<and> (toLowerCase name = name \<longrightarrow> p \<noteq> None)
           \<and> (\<forall>k c' t. p = Some k \<and> k \<noteq> [] \<and> getOwn m k = Some (Config c')
                  \<and> getField c' key = Some t \<longrightarrow>
                getModelTokenValue (JStr name) (Some m) key = Inr (Some (Number t)))
           \<and> (\<forall>k c'. p = Some k \<and> getOwn m k = Some (Config c') \<and> getField c' key = None \<longrightarrow>
                getModelTokenValue (JStr name) (Some m) key = Inr (getOwn m ''system_default''))
           \<and> (p = None \<longrightarrow>
                getModelTokenValue (JStr name) (Some m) key = Inr (getOwn m ''system_default''))"
proof -
  define p where "p = List.find (str_includes (toLowerCase name)) (rev (Object_keys m))"
  have run: "findMatchingPattern (JStr name) (Some m) = Inr p"
    by (simp add: findMatchingPattern_find p_def)
  from assms have "\<not> exactMatchYields m name"
    by (simp add: exactMatchYields_def getProp_own)
  then have path: "getModelTokenValue (JStr name) (Some m) key = lookupPattern (Some m) key p"
    unfolding p_def by (rule getModelTokenValue_pattern_path)
  have self: "toLowerCase name = name \<longrightarrow> p \<noteq> None"
  proof
    assume "toLowerCase name = name"
    moreover from assms have "name \<in> set (Object_keys m)"
      by (simp add: keys_getOwn)
    ultimately show "p \<noteq> None"
      unfolding p_def by (intro find_self_match [of name]) (simp_all add: str_includes_refl)
  qed
  have found: "\<forall>k c' t. p = Some k \<and> k \<noteq> [] \<and> getOwn m k = Some (Config c')
                  \<and> getField c' key = Some t \<longrightarrow>
                getModelTokenValue (JStr name) (Some m) key = Inr (Some (Number t))"
    by (simp add: path lookupPattern_def getProp_system_default getProp_own)
  have lacks: "\<forall>k c'. p = Some k \<and> getOwn m k = Some (Config c') \<and> getField c' key = None \<longrightarrow>
                getModelTokenValue (JStr name) (Some m) key = Inr (getOwn m ''system_default'')"
    by (auto simp: path lookupPattern_def getProp_system_default getProp_own)
  have none: "p = None \<longrightarrow>
                getModelTokenValue (JStr name) (Some m) key = Inr (getOwn m ''system_default'')"
    by (simp add: path lookupPattern_def getProp_system_default getProp_own)
  show ?thesis
    by (rule exI [of _ p]) (intro conjI run path self found lacks none)
qed

theorem getModelTokenValue_exact_without_context_witness:
  "getOwn (plain [(''gpt-4'', Config \<lparr>prompt = Some (Finite False 30), completion = Some (Finite False 60),
                                 context' = None, output' = None\<rparr>),
           (''system_default'', Number (Finite False 4096))]) ''gpt-4''
     = Some (Config \<lparr>prompt = Some (Finite False 30), completion = Some (Finite False 60),
                      context' = None, output' = None\<rparr>)
   \<and> \<not> truthy_opt (context' \<lparr>prompt = Some (Finite False 30), completion = Some (Finite False 60),
                                context' = None, output' = None\<rparr>)
   \<and> findMatchingPattern (JStr ''gpt-4'')
        (Some (plain [(''gpt-4'', Config \<lparr>prompt = Some (Finite False 30),
                                    completion = Some (Finite False 60),
                                    context' = None, output' = None\<rparr>),
               (''system_default'', Number (Finite False 4096))])) = Inr (Some ''gpt-4'')
   \<and> getModelTokenValue (JStr ''gpt-4'')
        (Some (plain [(''gpt-4'', Config \<lparr>prompt = Some (Finite False 30),
                                    completion = Some (Finite False 60),
                                    context' = None, output' = None\<rparr>),
               (''system_default'', Number (Finite False 4096))])) Prompt
       = Inr (Some (Number (Finite False 30)))
   \<and> getModelTokenValue (JStr ''gpt-4'')
        (Some (plain [(''gpt-4'', Config \<lparr>prompt = Some (Finite False 30),
                                    completion = Some (Finite False 60),
                                    context' = None, output' = None\<rparr>),
               (''system_default'', Number (Finite False 4096))])) Output
       = Inr (Some (Number (Finite False 4096)))"
proof -
  let ?c = "\<lparr>prompt = Some (Finite False 30), completion = Some (Finite False 60),
             context' = None, output' = None\<rparr>"
  let ?m = "(plain [(''gpt-4'', Config ?c), (''system_default'', Number (Finite False 4096))])"
  have lower: "toLowerCase ''gpt-4'' = ''gpt-4''"
    by code_simp
  have h1: "getOwn ?m ''gpt-4'' = Some (Config ?c)"
    by (simp add: object_eval)
  have h2: "\<not> truthy_opt (context' ?c)"
    by simp
  have run: "findMatchingPattern (JStr ''gpt-4'') (Some ?m) = Inr (Some ''gpt-4'')"
    by (simp add: findMatchingPattern_find Object_keys_def plain_def lower str_includes_def sublist_code)
  from getModelTokenValue_exact_without_context [OF h1 h2, of Prompt] run
  have r1: "getModelTokenValue (JStr ''gpt-4'') (Some ?m) Prompt = Inr (Some (Number (Finite False 30)))"
    by (simp add: object_eval lookupPattern_def getProp_system_default getProp_own)
  from getModelTokenValue_exact_without_context [OF h1 h2, of Output] run
  have r2: "getModelTokenValue (JStr ''gpt-4'') (Some ?m) Output
              = Inr (Some (Number (Finite False 4096)))"
    by (simp add: object_eval lookupPattern_def getProp_system_default getProp_own)
  from h1 h2 run r1 r2 show ?thesis
    by simp
qed

lemma find_rev_split:
  "P k \<Longrightarrow> list_all (\<lambda>k'. \<not> P k') after \<Longrightarrow>
   List.find P (rev (before @ k # after)) = Some k"
  by (induction after rule: rev_induct) simp_all

text \<open>
  C10. The reserved key \<open>system_default\<close> is a pattern like any other. When the map holds it,
  the lowercased model name contains it, and no key enumerated after it matches,
  \<open>findMatchingPattern\<close> returns \<open>system_default\<close> itself; \<open>getModelTokenValue\<close>, unless the
  exact-match steps answer, then resolves the name through the pattern step on that key (a
  bare number is returned as the matched entry, a record gives its requested field), not
  through the terminal fallback.
\<close>

theorem system_default_is_a_pattern:
  assumes "ownProps tokensMap = before @ (''system_default'', v) # after"
    and "str_includes (toLowerCase name) ''system_default''"
    and "list_all (\<lambda>k. \<not> str_includes (toLowerCase name) k) (map fst after)"
  shows "findMatchingPattern (JStr name) (Some tokensMap) = Inr (Some ''system_default'')
         \<and> (\<not> exactMatchYields tokensMap name \<longrightarrow>
              getModelTokenValue (JStr name) (Some tokensMap) key
                = lookupPattern (Some tokensMap) key (Some ''system_default''))
         \<and> (\<forall>n. \<not> exactMatchYields tokensMap name
                \<and> getOwn tokensMap ''system_default'' = Some (Number n) \<longrightarrow>
              getModelTokenValue (JStr name) (Some tokensMap) key = Inr (Some (Number n)))
         \<and> (\<forall>c t. \<not> exactMatchYields tokensMap name
                \<and> getOwn tokensMap ''system_default'' = Some (Config c)
                \<and> getField c key = Some t \<longrightarrow>
              getModelTokenValue (JStr name) (Some tokensMap) key = Inr (Some (Number t)))"
proof -
  have keys: "Object_keys tokensMap
                = map fst before @ ''system_default'' # map fst after"
    by (simp add: assms(1) Object_keys_def)
  have found: "List.find (str_includes (toLowerCase name)) (rev (Object_keys tokensMap))
                 = Some ''system_default''"
    unfolding keys using assms(2,3) by (rule find_rev_split)
  then have run: "findMatchingPattern (JStr name) (Some tokensMap) = Inr (Some ''system_default'')"
    by (simp add: findMatchingPattern_find)
  have path: "\<not> exactMatchYields tokensMap name \<longrightarrow>
              getModelTokenValue (JStr name) (Some tokensMap) key
                = lookupPattern (Some tokensMap) key (Some ''system_default'')"
    by (simp add: getModelTokenValue_pattern_path found)
  have num: "\<forall>n. \<not> exactMatchYields tokensMap name
                \<and> getOwn tokensMap ''system_default'' = Some (Number n) \<longrightarrow>
              getModelTokenValue (JStr name) (Some tokensMap) key = Inr (Some (Number n))"
    by (simp add: getModelTokenValue_pattern_path found lookupPattern_def getProp_system_default getProp_own)
  have rec: "\<forall>c t. \<not> exactMatchYields tokensMap name
                \<and> getOwn tokensMap ''system_default'' = Some (Config c)
                \<and> getField c key = Some t \<longrightarrow>
              getModelTokenValue (JStr name) (Some tokensMap) key = Inr (Some (Number t))"
    by (simp add: getModelTokenValue_pattern_path found lookupPattern_def getProp_system_default getProp_own)
  show ?thesis
    by (intro conjI run path num rec)
qed

theorem system_default_is_a_pattern_witness:
  "ownProps (plain [(''gpt-4'', Number (Finite False 8192)),
                    (''system_default'', Number (Finite False 4096)),
                    (''claude'', Number (Finite False 100000))])
     = [(''gpt-4'', Number (Finite False 8192))]
       @ (''system_default'', Number (Finite False 4096)) # [(''claude'', Number (Finite False 100000))]
   \<and> str_includes (toLowerCase ''my-SYSTEM_DEFAULT-model'') ''system_default''
   \<and> list_all (\<lambda>k. \<not> str_includes (toLowerCase ''my-SYSTEM_DEFAULT-model'') k)
         (map fst [(''claude'', Number (Finite False 100000))])
   \<and> \<not> exactMatchYields
          (plain [(''gpt-4'', Number (Finite False 8192)), (''system_default'', Number (Finite False 4096)),
           (''claude'', Number (Finite False 100000))]) ''my-SYSTEM_DEFAULT-model''
   \<and> findMatchingPattern (JStr ''my-SYSTEM_DEFAULT-model'')
        (Some (plain [(''gpt-4'', Number (Finite False 8192)),
               (''system_default'', Number (Finite False 4096)),
               (''claude'', Number (Finite False 100000))])) = Inr (Some ''system_default'')
   \<and> getModelTokenValue (JStr ''my-SYSTEM_DEFAULT-model'')
        (Some (plain [(''gpt-4'', Number (Finite False 8192)),
               (''system_default'', Number (Finite False 4096)),
               (''claude'', Number (Finite False 100000))])) Context
       = Inr (Some (Number (Finite False 4096)))"
proof -
  let ?m = "(plain [(''gpt-4'', Number (Finite False 8192)), (''system_default'', Number (Finite False 4096)),
             (''claude'', Number (Finite False 100000))])"
  have lower: "toLowerCase ''my-SYSTEM_DEFAULT-model'' = ''my-system_default-model''"
    by code_simp
  have h1: "ownProps ?m = [(''gpt-4'', Number (Finite False 8192))]
              @ (''system_default'', Number (Finite False 4096))
                # [(''claude'', Number (Finite False 100000))]"
    by (simp add: plain_def)
  have h2: "str_includes (toLowerCase ''my-SYSTEM_DEFAULT-model'') ''system_default''"
    by (simp add: lower str_includes_def sublist_code)
  have h3: "list_all (\<lambda>k. \<not> str_includes (toLowerCase ''my-SYSTEM_DEFAULT-model'') k)
              (map fst [(''claude'', Number (Finite False 100000))])"
    by (simp add: lower Object_keys_def str_includes_def sublist_code)
  have h4: "\<not> exactMatchYields ?m ''my-SYSTEM_DEFAULT-model''"
    by (simp add: exactMatchYields_def getProp_own object_eval)
  have sd: "getOwn ?m ''system_default'' = Some (Number (Finite False 4096))"
    by (simp add: object_eval)
  note inst = system_default_is_a_pattern [OF h1 h2 h3, of Context]
  from inst have r1: "findMatchingPattern (JStr ''my-SYSTEM_DEFAULT-model'') (Some ?m)
                        = Inr (Some ''system_default'')"
    by (rule conjunct1)
  from inst [THEN conjunct2, THEN conjunct2, THEN conjunct1] h4 sd
  have r2: "getModelTokenValue (JStr ''my-SYSTEM_DEFAULT-model'') (Some ?m) Context
              = Inr (Some (Number (Finite False 4096)))"
    by simp
  from h1 h2 h3 h4 r1 r2 show ?thesis
    by simp
qed

subsection \<open>matchModelName\<close>








subsection \<open>Number arithmetic\<close>

text \<open>
  The conversions of the price literals used below, each computed by the two roundings (of the
  literal, and of its product with \<open>1000000\<close>).
\<close>

lemma roundToDouble_finite:
  assumes "x \<noteq> 0"
    and "floorLog2 x = e"
    and "roundHalfEven (x / pow 2 (max (e - 52) (- 1074))) = m"
    and "of_int m * pow 2 (max (e - 52) (- 1074)) = r"
    and "r < 2 ^ 1024"
  shows "roundToDouble sign x = Finite sign r"
  using assms by (simp add: roundToDouble_def Let_def)

lemma perMillion_finite:
  assumes "parseFloat s = roundToDouble False x"
    and "x \<noteq> 0"
    and "floorLog2 x = e"
    and "roundHalfEven (x / pow 2 (max (e - 52) (- 1074))) = m"
    and "of_int m * pow 2 (max (e - 52) (- 1074)) = d"
    and "d < 2 ^ 1024"
    and "d * 1000000 \<noteq> 0"
    and "floorLog2 (d * 1000000) = e'"
    and "roundHalfEven (d * 1000000 / pow 2 (max (e' - 52) (- 1074))) = m'"
    and "of_int m' * pow 2 (max (e' - 52) (- 1074)) = r"
    and "r < 2 ^ 1024"
  shows "multiply (parseFloat s) (Finite False 1000000) = Finite False r"
proof -
  have "parseFloat s = Finite False d"
    unfolding assms(1) using assms(2-6) by (rule roundToDouble_finite)
  moreover have "roundToDouble False (d * 1000000) = Finite False r"
    using assms(7-11) by (rule roundToDouble_finite)
  ultimately show ?thesis by simp
qed

lemmas number_eval =
  parseFloat_def isWhiteSpace_def isDigit_def digitsValue_def pow_def floorLog2_def
  bitLength.simps roundHalfEven_def Let_def

lemma perMillion_00001: "multiply (parseFloat ''0.00001'') (Finite False 1000000) = Finite False 10"
  by (rule perMillion_finite [where x = "1 / 100000" and e = "- 17" and m = 5902958103587057
        and d = "5902958103587057 / 2 ^ 69" and e' = 3 and m' = 5629499534213120])
     (simp_all add: number_eval)

lemma perMillion_00003: "multiply (parseFloat ''0.00003'') (Finite False 1000000) = Finite False 30"
  by (rule perMillion_finite [where x = "3 / 100000" and e = "- 16" and m = 8854437155380585
        and d = "8854437155380585 / 2 ^ 68" and e' = 4 and m' = 8444249301319680])
     (simp_all add: number_eval)




subsection \<open>processModelData\<close>

lemma lastEntry_Cons:
  "lastEntry k (model # rest) =
     (case lastEntry k rest of
        None \<Rightarrow> (if model_id model = k then Some model else None)
      | Some e \<Rightarrow> Some e)"
  by (simp add: lastEntry_def find_append_cases split: option.splits)

lemma lastEntry_None: "lastEntry k data = None \<longleftrightarrow> k \<notin> model_id ` set data"
  by (auto simp: lastEntry_def find_None_iff)

lemma lastEntry_Some: "lastEntry k data = Some e \<Longrightarrow> e \<in> set data \<and> model_id e = k"
  using find_Some_member [of "\<lambda>model. model_id model = k" "rev data" e]
  by (simp add: lastEntry_def)

lemma lastEntry_exists:
  "e \<in> set data \<Longrightarrow> \<exists>e'. lastEntry (model_id e) data = Some e'"
  using lastEntry_None [of "model_id e" data] by (cases "lastEntry (model_id e) data") auto

lemma getOwn_plain_Nil: "getOwn (plain []) k = None"
  by (simp add: getOwn_def plain_def)

lemma getOwn_setProp:
  "getOwn (setProp obj k c) k' =
     (if k = ''__proto__'' \<and> getOwn obj k = None then getOwn obj k'
      else if k' = k then Some (Config c) else getOwn obj k')"
  by (auto simp: setProp_def keys_getOwn getOwn_defineProperty)
     (simp_all add: getOwn_def)




lemma getOwn_processModels:
  "getOwn tokenConfig ''__proto__'' = None \<Longrightarrow>
   getOwn (processModels tokenConfig data) k =
     (if k = ''__proto__'' then None
      else case lastEntry k data of
             None \<Rightarrow> getOwn tokenConfig k
           | Some e \<Rightarrow> Some (Config (tokenConfigOf e)))"
proof (induction data arbitrary: tokenConfig)
  case Nil
  then show ?case by (simp add: lastEntry_def)
next
  case (Cons model rest)
  from Cons.prems have "getOwn (setProp tokenConfig (model_id model) (tokenConfigOf model))
                          ''__proto__'' = None"
    by (simp add: getOwn_setProp)
  then have "getOwn (processModels (setProp tokenConfig (model_id model) (tokenConfigOf model)) rest) k =
     (if k = ''__proto__'' then None
      else case lastEntry k rest of
             None \<Rightarrow> getOwn (setProp tokenConfig (model_id model) (tokenConfigOf model)) k
           | Some e \<Rightarrow> Some (Config (tokenConfigOf e)))"
    by (rule Cons.IH)
  with Cons.prems show ?case
    by (simp add: lastEntry_Cons getOwn_setProp split: option.splits)
qed




lemma tokenConfigOf_fields:
  "tokenConfigOf e =
     \<lparr>prompt = Some (multiply (parseFloat (if model_id e = ''openrouter/auto'' then ''0.00001''
                                             else pricing_prompt (model_pricing e)))
                            (Finite False 1000000)),
      completion = Some (multiply (parseFloat (if model_id e = ''openrouter/auto'' then ''0.00003''
                                                 else pricing_completion (model_pricing e)))
                                (Finite False 1000000)),
      context' = Some (context_length e), output' = None\<rparr>"
  by (simp add: tokenConfigOf_def Let_def)







text \<open>
  C6. For every valid catalog input that contains an entry whose id is \<open>openrouter/auto\<close>, the
  output entry under that id has prompt \<open>10\<close> and completion \<open>30\<close>, whatever pricing strings
  the input entry supplies: the binary64 value nearest to \<open>0.00001\<close> times \<open>1000000\<close> rounds to
  \<open>10\<close>, and the one nearest to \<open>0.00003\<close> to \<open>30\<close>.
\<close>

theorem processModelData_openrouter_auto:
  assumes "inputSchema input = Some data"
    and "e \<in> set data"
    and "model_id e = ''openrouter/auto''"
  shows "\<exists>tokenConfig c. processModelData input = Inr tokenConfig
           \<and> getOwn tokenConfig ''openrouter/auto'' = Some (Config c)
           \<and> prompt c = Some (Finite False 10)
           \<and> completion c = Some (Finite False 30)"
proof -
  from assms(2,3) obtain e' where last: "lastEntry ''openrouter/auto'' data = Some e'"
    using lastEntry_exists [of e data] by auto
  then have id: "model_id e' = ''openrouter/auto''"
    by (simp add: lastEntry_Some)
  have run: "processModelData input = Inr (processModels (plain []) data)"
    by (simp add: processModelData_def assms(1))
  have entry: "getOwn (processModels (plain []) data) ''openrouter/auto''
                 = Some (Config (tokenConfigOf e'))"
    by (simp add: getOwn_processModels getOwn_plain_Nil last)
  have "prompt (tokenConfigOf e') = Some (Finite False 10)"
    by (simp add: tokenConfigOf_fields id perMillion_00001)
  moreover have "completion (tokenConfigOf e') = Some (Finite False 30)"
    by (simp add: tokenConfigOf_fields id perMillion_00003)
  ultimately show ?thesis
    using run entry by blast
qed

theorem processModelData_openrouter_auto_witness:
  "inputSchema
     (JObj [(''data'', JArr
        [JObj [(''id'', JStr ''openrouter/auto''),
               (''pricing'', JObj [(''prompt'', JStr ''-1''), (''completion'', JStr ''-1'')]),
               (''context_length'', JNum (Finite False 2000000))]])])
     = Some [Model ''openrouter/auto'' (Pricing ''-1'' ''-1'') (Finite False 2000000)]
   \<and> Model ''openrouter/auto'' (Pricing ''-1'' ''-1'') (Finite False 2000000)
       \<in> set [Model ''openrouter/auto'' (Pricing ''-1'' ''-1'') (Finite False 2000000)]
   \<and> (\<exists>tokenConfig c.
         processModelData
           (JObj [(''data'', JArr
              [JObj [(''id'', JStr ''openrouter/auto''),
                     (''pricing'', JObj [(''prompt'', JStr ''-1''), (''completion'', JStr ''-1'')]),
                     (''context_length'', JNum (Finite False 2000000))]])]) = Inr tokenConfig
         \<and> getOwn tokenConfig ''openrouter/auto'' = Some (Config c)
         \<and> prompt c = Some (Finite False 10)
         \<and> completion c = Some (Finite False 30))"
proof -
  let ?input = "JObj [(''data'', JArr
        [JObj [(''id'', JStr ''openrouter/auto''),
               (''pricing'', JObj [(''prompt'', JStr ''-1''), (''completion'', JStr ''-1'')]),
               (''context_length'', JNum (Finite False 2000000))]])]"
  let ?e = "Model ''openrouter/auto'' (Pricing ''-1'' ''-1'') (Finite False 2000000)"
  have h1: "inputSchema ?input = Some [?e]"
    by simp
  have h2: "?e \<in> set [?e]"
    by simp
  have h3: "model_id ?e = ''openrouter/auto''"
    by simp
  from processModelData_openrouter_auto [OF h1 h2 h3] h1 h2 show ?thesis
    by (intro conjI)
qed

lemma z_string_isString: "z_string v = Some s \<Longrightarrow> isString v"
  by (cases "(v)" rule: z_string.cases) simp_all

lemma z_number_isNumber: "z_number v = Some n \<Longrightarrow> isNumber v"
  by (cases "(v)" rule: z_number.cases) simp_all

lemma pricingSchema_isPricing: "pricingSchema v = Some p \<Longrightarrow> isPricing v"
  by (cases "(v)" rule: pricingSchema.cases)
     (auto split: option.splits dest: z_string_isString)

lemma modelSchema_isCatalogEntry: "modelSchema v = Some m \<Longrightarrow> isCatalogEntry v"
  by (cases v)
     (auto split: option.splits
           dest: z_string_isString z_number_isNumber pricingSchema_isPricing)

lemma z_array_all:
  "z_array modelSchema vs = Some ms \<Longrightarrow> list_all isCatalogEntry vs"
  by (induction vs arbitrary: ms)
     (auto split: option.splits dest: modelSchema_isCatalogEntry)

lemma inputSchema_isCatalogInput: "inputSchema input = Some data \<Longrightarrow> isCatalogInput input"
  by (cases input) (auto split: option.splits jsval.splits dest: z_array_all)

text \<open>
  C8. For every input that does not conform to the catalog shape, \<open>processModelData\<close> fails with
  the validation error and returns no map at all: one entry that misses its pricing or its
  \<open>context_length\<close>, or whose \<open>context_length\<close> is not a number, fails the whole batch,
  well-formed entries included.
\<close>

theorem processModelData_rejects_malformed:
  assumes "\<not> isCatalogInput input"
  shows "processModelData input = Inl InvalidInputData"
proof (cases "inputSchema input")
  case None
  then show ?thesis by (simp add: processModelData_def)
next
  case (Some data)
  then have "isCatalogInput input" by (rule inputSchema_isCatalogInput)
  with assms show ?thesis by simp
qed

theorem processModelData_rejects_malformed_witness:
  "\<not> isCatalogInput
       (JObj [(''data'', JArr
          [JObj [(''id'', JStr ''m1''),
                 (''pricing'', JObj [(''prompt'', JStr ''0.000002''),
                                     (''completion'', JStr ''0.000004'')])]])])
   \<and> processModelData
       (JObj [(''data'', JArr
          [JObj [(''id'', JStr ''m1''),
                 (''pricing'', JObj [(''prompt'', JStr ''0.000002''),
                                     (''completion'', JStr ''0.000004'')])]])])
       = Inl InvalidInputData
   \<and> \<not> isCatalogInput
       (JObj [(''data'', JArr
          [JObj [(''id'', JStr ''m1''),
                 (''pricing'', JObj [(''prompt'', JStr ''0.000002''),
                                     (''completion'', JStr ''0.000004'')]),
                 (''context_length'', JNum (Finite False 8192))],
           JObj [(''id'', JStr ''m2''),
                 (''context_length'', JStr ''8192'')]])])
   \<and> processModelData
       (JObj [(''data'', JArr
          [JObj [(''id'', JStr ''m1''),
                 (''pricing'', JObj [(''prompt'', JStr ''0.000002''),
                                     (''completion'', JStr ''0.000004'')]),
                 (''context_length'', JNum (Finite False 8192))],
           JObj [(''id'', JStr ''m2''),
                 (''context_length'', JStr ''8192'')]])])
       = Inl InvalidInputData"
proof -
  let ?a = "JObj [(''data'', JArr
          [JObj [(''id'', JStr ''m1''),
                 (''pricing'', JObj [(''prompt'', JStr ''0.000002''),
                                     (''completion'', JStr ''0.000004'')])]])]"
  let ?b = "JObj [(''data'', JArr
          [JObj [(''id'', JStr ''m1''),
                 (''pricing'', JObj [(''prompt'', JStr ''0.000002''),
                                     (''completion'', JStr ''0.000004'')]),
                 (''context_length'', JNum (Finite False 8192))],
           JObj [(''id'', JStr ''m2''),
                 (''context_length'', JStr ''8192'')]])]"
  have a: "\<not> isCatalogInput ?a"
    by simp
  have b: "\<not> isCatalogInput ?b"
    by simp
  from a b processModelData_rejects_malformed [OF a] processModelData_rejects_malformed [OF b]
  show ?thesis
    by (intro conjI)
qed

subsection \<open>Looking up a normalised catalog\<close>




end
